theory Spec2Isabelle
  imports Main
begin

section \<open>JavaScript numbers\<close>

text \<open>
  The handlers compute with JavaScript numbers, which are IEEE 754 doubles.  The ones
  that occur here are integers, the two infinities and \<open>NaN\<close>: \<open>parseInt\<close> yields an
  integer, an infinity or \<open>NaN\<close>, and the sum or difference of two integers, rounded to
  a double, is an integer again.  \<open>Finite n\<close> is the double whose value is the integer
  \<open>n\<close>; minus zero is not told apart from zero, which no operation used here does.
\<close>

datatype number = NaN | Finite int | PosInfinity | NegInfinity

text \<open>
  A double has a significand of 53 bits.  For a non-negative integer \<open>a\<close>,
  \<open>shiftCount a\<close> is the number of low bits of \<open>a\<close> that do not fit: the least \<open>e\<close>
  with \<open>a div 2 ^ e < 2 ^ 53\<close>, where \<open>2 ^ 53 = 9007199254740992\<close>.
\<close>

function shiftCount :: "int \<Rightarrow> nat" where
  "shiftCount a = (if a < 9007199254740992 then 0 else Suc (shiftCount (a div 2)))"
  by pat_completeness auto
termination
  by (relation "measure nat") auto

declare shiftCount.simps [simp del]

text \<open>
  The number value of an integer: the nearest double, the one with the even significand
  when two are equally near.  The bits that do not fit are cut off and the significand
  goes up by one when they are more than half a unit, or exactly half and the
  significand is odd.  The greatest double is \<open>(2 ^ 53 - 1) * 2 ^ 971\<close>; what rounds to
  \<open>2 ^ 1024\<close> or more is an infinity.
\<close>

definition toNumber :: "int \<Rightarrow> number" where
  "toNumber x =
     (let a = \<bar>x\<bar>;
          e = shiftCount a;
          q = a div 2 ^ e;
          r = a mod 2 ^ e;
          q' = (if 2 * r > 2 ^ e \<or> (2 * r = 2 ^ e \<and> odd q) then q + 1 else q)
      in if e > 971 \<or> (e = 971 \<and> q' = 9007199254740992)
         then (if x < 0 then NegInfinity else PosInfinity)
         else Finite (sgn x * (q' * 2 ^ e)))"

text \<open>
  Not every integer is the value of a double.  \<open>isDouble n\<close> says that \<open>n\<close> is a number
  a double can hold: for \<open>Finite n\<close>, that rounding leaves \<open>n\<close> as it is.
\<close>

fun isDouble :: "number \<Rightarrow> bool" where
  "isDouble (Finite n) = (toNumber n = Finite n)"
| "isDouble n = True"

text \<open>\<open>isNaN(n)\<close>, \<open>a > b\<close>, \<open>a - b\<close> and \<open>a + b\<close> on these numbers.\<close>

definition isNaN :: "number \<Rightarrow> bool" where
  "isNaN n = (n = NaN)"

fun numGt :: "number \<Rightarrow> number \<Rightarrow> bool" where
  "numGt (Finite a) (Finite b) = (a > b)"
| "numGt PosInfinity (Finite b) = True"
| "numGt PosInfinity NegInfinity = True"
| "numGt (Finite a) NegInfinity = True"
| "numGt a b = False"

fun numSub :: "number \<Rightarrow> number \<Rightarrow> number" where
  "numSub (Finite a) (Finite b) = toNumber (a - b)"
| "numSub PosInfinity (Finite b) = PosInfinity"
| "numSub PosInfinity NegInfinity = PosInfinity"
| "numSub (Finite a) NegInfinity = PosInfinity"
| "numSub NegInfinity (Finite b) = NegInfinity"
| "numSub NegInfinity PosInfinity = NegInfinity"
| "numSub (Finite a) PosInfinity = NegInfinity"
| "numSub a b = NaN"

fun numAdd :: "number \<Rightarrow> number \<Rightarrow> number" where
  "numAdd (Finite a) (Finite b) = toNumber (a + b)"
| "numAdd PosInfinity (Finite b) = PosInfinity"
| "numAdd (Finite a) PosInfinity = PosInfinity"
| "numAdd PosInfinity PosInfinity = PosInfinity"
| "numAdd NegInfinity (Finite b) = NegInfinity"
| "numAdd (Finite a) NegInfinity = NegInfinity"
| "numAdd NegInfinity NegInfinity = NegInfinity"
| "numAdd a b = NaN"

section \<open>JavaScript string primitives used by the line handlers\<close>

text \<open>
  A line is a JavaScript string; it is modelled as a list of code units, of which the
  type \<open>char\<close> represents those below 256.  Among these, \<open>String.prototype.trim\<close> and the
  leading-blank skipping of \<open>parseInt\<close> remove TAB, LF, VT, FF, CR, SPACE and NBSP.
\<close>

definition isWhiteSpace :: "char \<Rightarrow> bool" where
  "isWhiteSpace c = (of_char c \<in> {9, 10, 11, 12, 13, 32, 160 :: nat})"

definition trim :: "string \<Rightarrow> string" where
  "trim s = rev (dropWhile isWhiteSpace (rev (dropWhile isWhiteSpace s)))"

text \<open>
  \<open>s.split(sep)\<close> for a one-character separator: the pieces between the occurrences of
  the separator; the result always has at least one element.
\<close>

fun jsSplit :: "char \<Rightarrow> string \<Rightarrow> string list" where
  "jsSplit sep [] = [ [] ]"
| "jsSplit sep (c # cs) =
     (if c = sep then [] # jsSplit sep cs
      else (case jsSplit sep cs of
              [] \<Rightarrow> [ [c] ]
            | p # ps \<Rightarrow> (c # p) # ps))"

text \<open>The value of a character as a digit (\<open>0-9\<close>, \<open>a-z\<close>, \<open>A-Z\<close>), if it is one.\<close>

definition digitValue :: "char \<Rightarrow> nat option" where
  "digitValue c =
     (let n = (of_char c :: nat) in
      if 48 \<le> n \<and> n \<le> 57 then Some (n - 48)
      else if 97 \<le> n \<and> n \<le> 122 then Some (n - 87)
      else if 65 \<le> n \<and> n \<le> 90 then Some (n - 55)
      else None)"

definition isRadixDigit :: "nat \<Rightarrow> char \<Rightarrow> bool" where
  "isRadixDigit radix c = (case digitValue c of None \<Rightarrow> False | Some d \<Rightarrow> d < radix)"

definition digitsValue :: "nat \<Rightarrow> string \<Rightarrow> int" where
  "digitsValue radix z =
     foldl (\<lambda>acc c. acc * int radix + (case digitValue c of None \<Rightarrow> 0 | Some d \<Rightarrow> int d)) 0 z"

definition hasHexPrefix :: "string \<Rightarrow> bool" where
  "hasHexPrefix s = (take 2 s = ''0x'' \<or> take 2 s = ''0X'')"

text \<open>
  \<open>parseInt(string)\<close> with no radix argument, after ECMA-262: skip leading blanks, read
  an optional sign, switch to radix 16 after a \<open>0x\<close>/\<open>0X\<close> prefix, read the longest run
  of digits of the radix; no digit at all gives \<open>NaN\<close>.  The result is the number value
  of the signed integer the digits denote, that is the double nearest to it, as V8
  computes it for radix 10 and 16.
\<close>

definition parseInt :: "string \<Rightarrow> number" where
  "parseInt inputString =
     (let s = dropWhile isWhiteSpace inputString;
          sign = (if take 1 s = ''-'' then - 1 else 1 :: int);
          s1 = (if take 1 s = ''-'' \<or> take 1 s = ''+'' then drop 1 s else s);
          radix = (if hasHexPrefix s1 then 16 else 10 :: nat);
          s2 = (if hasHexPrefix s1 then drop 2 s1 else s1);
          z = takeWhile (isRadixDigit radix) s2
      in if z = [] then NaN else toNumber (sign * digitsValue radix z))"

text \<open>
  The regular expressions of the handlers all have the shape
  \<open>/lit1.*lit2.*...litn/\<close>, searched anywhere in the line, where \<open>.\<close> matches every
  character but a line terminator.  \<open>gap ps s\<close> says that \<open>s\<close> starts with a match of
  \<open>.*p1.*p2...\<close>; \<open>regexTest (p # ps) s\<close> is \<open>/p.*p1.*p2.../.test(s)\<close>.
\<close>

definition isLineTerminator :: "char \<Rightarrow> bool" where
  "isLineTerminator c = (of_char c \<in> {10, 13 :: nat})"

fun startsWith :: "string \<Rightarrow> string \<Rightarrow> bool" where
  "startsWith [] s = True"
| "startsWith (p # ps) [] = False"
| "startsWith (p # ps) (c # cs) = (p = c \<and> startsWith ps cs)"

fun gap :: "string list \<Rightarrow> string \<Rightarrow> bool" where
  "gap [] s = True"
| "gap (p # ps) [] = (p = [] \<and> gap ps [])"
| "gap (p # ps) (c # cs) =
     ((startsWith p (c # cs) \<and> gap ps (drop (length p) (c # cs)))
      \<or> (\<not> isLineTerminator c \<and> gap (p # ps) cs))"

fun regexTest :: "string list \<Rightarrow> string \<Rightarrow> bool" where
  "regexTest [] s = True"
| "regexTest (p # ps) [] = (p = [] \<and> gap ps [])"
| "regexTest (p # ps) (c # cs) =
     ((startsWith p (c # cs) \<and> gap ps (drop (length p) (c # cs)))
      \<or> regexTest (p # ps) cs)"

section \<open>Progress reports of the build and sync commands\<close>

text \<open>
  The handlers call \<open>progress.report\<close> with an object of one of two shapes.  A phase
  label, \<open>{ message }\<close> or \<open>{ message, increment: 0 }\<close>, is \<open>PhaseChanged message increment\<close>
  with the increment optional; the report of the percent branch,
  \<open>{ message: "Compiling", increment: buildProgress - lastBuildProgress }\<close>, is
  \<open>PercentAdvanced\<close>.  A line that leads to no call of \<open>progress.report\<close> gives \<open>None\<close>.
\<close>

datatype progress_event =
    PhaseChanged string "number option"
  | PercentAdvanced string number

text \<open>
  The build command exists in two variants: the one reading the child's standard output
  through \<open>readline\<close> (Direct Pipe) and the one reading a socket fed by
  \<open>tee-to-socket.js\<close> (Socket Relay).  Their line handlers differ in one regular
  expression only: \<open>/goma/\<close> against \<open>/Running.*goma/\<close>.
\<close>

datatype transport = DirectPipe | SocketRelay

fun gomaMarker :: "transport \<Rightarrow> string list" where
  "gomaMarker DirectPipe = [''goma'']"
| "gomaMarker SocketRelay = [''Running'', ''goma'']"

text \<open>\<open>const buildProgress = parseInt(line.split("%")[0].trim())\<close>\<close>

definition buildProgress :: "string \<Rightarrow> number" where
  "buildProgress line = parseInt (trim (hd (jsSplit CHR ''%'' line)))"

text \<open>
  The \<open>rl.on("line", ...)\<close> handler of the build command.  The mutable variable
  \<open>lastBuildProgress\<close> is passed in and returned.
\<close>

definition buildLine :: "transport \<Rightarrow> number \<Rightarrow> string \<Rightarrow> progress_event option \<times> number" where
  "buildLine t lastBuildProgress line =
     (if regexTest [''Regenerating ninja files''] line
      then (Some (PhaseChanged ''Regenerating Ninja Files'' (Some (Finite 0))), lastBuildProgress)
      else if \<not> isNaN (buildProgress line)
      then (if numGt (buildProgress line) lastBuildProgress
            then (Some (PercentAdvanced ''Compiling''
                    (numSub (buildProgress line) lastBuildProgress)), buildProgress line)
            else (None, lastBuildProgress))
      else if regexTest (gomaMarker t) line
      then (Some (PhaseChanged ''Starting Goma'' None), lastBuildProgress)
      else if regexTest [''Running'', ''ninja''] line
      then (Some (PhaseChanged ''Starting'' None), lastBuildProgress)
      else (None, lastBuildProgress))"

text \<open>
  The \<open>rl.on("line", ...)\<close> handler of the sync command, the same in both versions of
  the extension, with its one-shot flag \<open>initialProgress\<close>.
\<close>

definition syncLine :: "bool \<Rightarrow> string \<Rightarrow> progress_event option \<times> bool" where
  "syncLine initialProgress line =
     (if regexTest [''running'', ''apply_all_patches.py''] line
      then (Some (PhaseChanged ''Applying Patches'' None), initialProgress)
      else if regexTest [''Hook'', ''apply_all_patches.py'', ''took''] line
      then (Some (PhaseChanged ''Finishing Up'' None), initialProgress)
      else if \<not> initialProgress
      then (Some (PhaseChanged ''Dependencies'' None), True)
      else (None, initialProgress))"

text \<open>
  \<open>readline\<close> calls the handler once per line, in order; \<open>feed\<close> collects the reports
  and threads the handler's variable through.
\<close>

fun feed :: "('s \<Rightarrow> string \<Rightarrow> progress_event option \<times> 's) \<Rightarrow> 's \<Rightarrow> string list
    \<Rightarrow> progress_event list \<times> 's" where
  "feed h s [] = ([], s)"
| "feed h s (l # ls) =
     (case h s l of
        (None, s') \<Rightarrow> feed h s' ls
      | (Some e, s') \<Rightarrow> (case feed h s' ls of (es, s'') \<Rightarrow> (e # es, s'')))"

text \<open>Both build variants start with \<open>let lastBuildProgress = 0\<close>.\<close>

definition buildLines :: "transport \<Rightarrow> string list \<Rightarrow> progress_event list \<times> number" where
  "buildLines t ls = feed (buildLine t) (Finite 0) ls"

text \<open>The sync command starts with \<open>let initialProgress = false\<close>.\<close>

definition syncLines :: "string list \<Rightarrow> progress_event list \<times> bool" where
  "syncLines ls = feed syncLine False ls"

text \<open>
  The progress sink adds up the increments it is given; a report without an increment
  leaves the percentage where it is.
\<close>

fun increment :: "progress_event \<Rightarrow> number" where
  "increment (PhaseChanged m None) = Finite 0"
| "increment (PhaseChanged m (Some i)) = i"
| "increment (PercentAdvanced m i) = i"

definition cumulative :: "progress_event list \<Rightarrow> number" where
  "cumulative es = foldl numAdd (Finite 0) (map increment es)"

text \<open>The increments of the percent reports among a list of reports, in order.\<close>

fun percentIncrements :: "progress_event list \<Rightarrow> number list" where
  "percentIncrements [] = []"
| "percentIncrements (PercentAdvanced m i # es) = i # percentIncrements es"
| "percentIncrements (PhaseChanged m i # es) = percentIncrements es"

section \<open>Settlement of an operation\<close>

text \<open>
  Each command hands \<open>withProgress\<close> a promise.  A promise is settled by the first call
  of \<open>resolve\<close> or \<open>reject\<close>; later calls do nothing to it.
\<close>

datatype promise_state = Pending | Resolved | Rejected string

text \<open>
  What the callbacks do besides settling the promise:
  \<^item> \<open>ShowErrorOccurred op msg\<close>: \<open>showErrorMessage("'op' had an error occur: msg")\<close>;
  \<^item> \<open>ShowFailedWithExitCode op n\<close>: \<open>showErrorMessage("'op' failed with exit code n")\<close>;
  \<^item> \<open>KillThemAll\<close>: \<open>killThemAll(operation)\<close>, the helper that ends the child process;
  \<^item> \<open>TerminateTask\<close>: \<open>taskExecution.terminate()\<close>;
  \<^item> \<open>WarnUserCanceled cmd\<close>: \<open>console.warn("User canceled 'cmd'")\<close>.
\<close>

datatype effect =
    ShowErrorOccurred string string
  | ShowFailedWithExitCode string int
  | KillThemAll
  | TerminateTask
  | WarnUserCanceled string

record operation =
  promise :: promise_state
  effects :: "effect list"

definition resolve :: "'a operation_scheme \<Rightarrow> 'a operation_scheme" where
  "resolve s = (if promise s = Pending then s\<lparr>promise := Resolved\<rparr> else s)"

definition reject :: "string \<Rightarrow> 'a operation_scheme \<Rightarrow> 'a operation_scheme" where
  "reject reason s = (if promise s = Pending then s\<lparr>promise := Rejected reason\<rparr> else s)"

definition perform :: "effect list \<Rightarrow> 'a operation_scheme \<Rightarrow> 'a operation_scheme" where
  "perform es s = s\<lparr>effects := effects s @ es\<rparr>"

text \<open>
  An exit code is a number, or \<open>null\<close>/\<open>undefined\<close> when the process was ended by a
  signal.  As a condition, \<open>exitCode\<close> holds when it is a number other than zero.
\<close>

definition truthy :: "int option \<Rightarrow> bool" where
  "truthy exitCode = (case exitCode of None \<Rightarrow> False | Some n \<Rightarrow> n \<noteq> 0)"

subsection \<open>Direct Pipe: \<open>childProcess.exec\<close> with the \<open>killed\<close> flag\<close>

text \<open>
  The build command of the Direct Pipe variant and both versions of the sync command
  register the same three callbacks on the child process and the cancellation token.
\<close>

record direct_operation = operation +
  killed :: bool

datatype child_event =
    ChildError string
  | ChildExit "int option"
  | CancellationRequested

definition directStart :: direct_operation where
  "directStart = \<lparr>promise = Pending, effects = [], killed = False\<rparr>"

fun directStep :: "string \<Rightarrow> string \<Rightarrow> direct_operation \<Rightarrow> child_event \<Rightarrow> direct_operation" where
  "directStep operationName command s (ChildError msg) =
     resolve (perform [ShowErrorOccurred operationName msg] s)"
| "directStep operationName command s (ChildExit exitCode) =
     resolve (if truthy exitCode \<and> \<not> killed s \<and> exitCode \<noteq> Some 0
              then perform [ShowFailedWithExitCode operationName (case exitCode of Some n \<Rightarrow> n | None \<Rightarrow> 0)] s
              else s)"
| "directStep operationName command s CancellationRequested =
     resolve (perform [KillThemAll, WarnUserCanceled command] (s\<lparr>killed := True\<rparr>))"

definition directRun :: "string \<Rightarrow> string \<Rightarrow> direct_operation \<Rightarrow> child_event list \<Rightarrow> direct_operation" where
  "directRun operationName command s evs = foldl (directStep operationName command) s evs"

subsection \<open>Socket Relay: a task and its \<open>finally\<close> clause\<close>

text \<open>
  The build command of the Socket Relay variant runs the command as a task.  The
  listeners for the end of a task and of a task's process are global, so each compares
  the event's execution with its own \<open>taskExecution\<close>.  The promise carries
  \<open>.finally(() => taskExecution.terminate())\<close>, which runs once the promise is settled;
  \<open>finallyRuns\<close> counts the calls of that clause.
\<close>

record relay_operation = operation +
  finallyRuns :: nat

datatype task_event =
    SocketServerError
  | DidEndTask nat
  | DidEndTaskProcess nat "int option"
  | TaskCancellationRequested

definition relayStart :: relay_operation where
  "relayStart = \<lparr>promise = Pending, effects = [], finallyRuns = 0\<rparr>"

fun relayHandler :: "nat \<Rightarrow> string \<Rightarrow> string \<Rightarrow> relay_operation \<Rightarrow> task_event \<Rightarrow> relay_operation" where
  "relayHandler taskExecution operationName command s SocketServerError =
     reject ''Socket server error'' s"
| "relayHandler taskExecution operationName command s (DidEndTask execution) =
     (if execution = taskExecution then resolve s else s)"
| "relayHandler taskExecution operationName command s (DidEndTaskProcess execution exitCode) =
     (if execution = taskExecution \<and> truthy exitCode \<and> exitCode \<noteq> Some 0
      then perform [ShowFailedWithExitCode operationName (case exitCode of Some n \<Rightarrow> n | None \<Rightarrow> 0)] s
      else s)"
| "relayHandler taskExecution operationName command s TaskCancellationRequested =
     perform [TerminateTask, WarnUserCanceled command] (resolve s)"

definition runFinally :: "relay_operation \<Rightarrow> relay_operation \<Rightarrow> relay_operation" where
  "runFinally s s' =
     (if promise s = Pending \<and> promise s' \<noteq> Pending
      then (perform [TerminateTask] s')\<lparr>finallyRuns := finallyRuns s' + 1\<rparr>
      else s')"

definition relayStep :: "nat \<Rightarrow> string \<Rightarrow> string \<Rightarrow> relay_operation \<Rightarrow> task_event \<Rightarrow> relay_operation" where
  "relayStep taskExecution operationName command s ev =
     runFinally s (relayHandler taskExecution operationName command s ev)"

definition relayRun :: "nat \<Rightarrow> string \<Rightarrow> string \<Rightarrow> relay_operation \<Rightarrow> task_event list \<Rightarrow> relay_operation" where
  "relayRun taskExecution operationName command s evs =
     foldl (relayStep taskExecution operationName command) s evs"

text \<open>
  The events of the Socket Relay variant whose callback calls \<open>resolve\<close> or \<open>reject\<close>:
  an error of the socket server, the end of this command's task, and a cancellation.
  The end of the task's process only shows a message.
\<close>

definition settles :: "nat \<Rightarrow> task_event \<Rightarrow> bool" where
  "settles taskExecution ev =
     (ev = SocketServerError \<or> ev = DidEndTask taskExecution \<or> ev = TaskCancellationRequested)"

section \<open>Environment of the build command\<close>

text \<open>
  \<open>{ ...process.env, NINJA_STATUS: "%p %f/%t " }\<close>: a copy of the caller's environment
  in which \<open>NINJA_STATUS\<close> is set.
\<close>

definition buildEnv :: "(string \<rightharpoonup> string) \<Rightarrow> (string \<rightharpoonup> string)" where
  "buildEnv processEnv = processEnv(''NINJA_STATUS'' \<mapsto> ''%p %f/%t '')"

section \<open>Name of the local socket\<close>









section \<open>Properties of the numbers\<close>

lemma shiftCount_small: "a < 9007199254740992 \<Longrightarrow> shiftCount a = 0"
  by (simp add: shiftCount.simps)

lemma shiftCount_power: "0 < a \<Longrightarrow> 2 ^ shiftCount a \<le> a"
proof (induction a rule: shiftCount.induct)
  case (1 a)
  show ?case
  proof (cases "a < 9007199254740992")
    case True
    with "1.prems" show ?thesis by (simp add: shiftCount_small)
  next
    case False
    then have "0 < a div 2" by simp
    with False "1.IH" have "2 ^ shiftCount (a div 2) \<le> a div 2" by simp
    then have "2 * 2 ^ shiftCount (a div 2) \<le> a" by simp
    moreover from False have "shiftCount a = Suc (shiftCount (a div 2))"
      by (subst shiftCount.simps) simp
    ultimately show ?thesis by simp
  qed
qed

lemma toNumber_exact: "\<bar>x\<bar> < 9007199254740992 \<Longrightarrow> toNumber x = Finite x"
  by (simp add: toNumber_def shiftCount_small mult_sgn_abs)

lemma toNumber_positive: "0 < x \<Longrightarrow> numGt (toNumber x) (Finite 0)"
proof -
  assume x: "0 < x"
  let ?e = "shiftCount x"
  let ?q = "x div 2 ^ ?e"
  let ?q' = "if 2 * (x mod 2 ^ ?e) > 2 ^ ?e \<or> (2 * (x mod 2 ^ ?e) = 2 ^ ?e \<and> odd ?q) then ?q + 1 else ?q"
  from x have "(2::int) ^ ?e \<le> x" by (rule shiftCount_power)
  then have "0 < ?q" by (simp add: pos_imp_zdiv_pos_iff)
  then have "0 < ?q'" by simp
  then have "0 < ?q' * 2 ^ ?e" by simp
  with x show ?thesis by (simp add: toNumber_def Let_def)
qed

lemma shiftCount_step:
  "\<not> a < 9007199254740992 \<Longrightarrow> shiftCount a = Suc (shiftCount (a div 2))"
  by (subst shiftCount.simps) simp

lemma shiftCount_div: "a div 2 ^ shiftCount a < 9007199254740992"
proof (induction a rule: shiftCount.induct)
  case (1 a)
  show ?case
  proof (cases "a < 9007199254740992")
    case True
    then show ?thesis by (simp add: shiftCount_small)
  next
    case False
    have "a div 2 ^ Suc (shiftCount (a div 2)) = (a div 2) div 2 ^ shiftCount (a div 2)"
      by (simp add: zdiv_zmult2_eq)
    with False "1.IH" show ?thesis by (simp add: shiftCount_step)
  qed
qed

lemma shiftCount_lower: "0 < shiftCount a \<Longrightarrow> 4503599627370496 \<le> a div 2 ^ shiftCount a"
proof (induction a rule: shiftCount.induct)
  case (1 a)
  from "1.prems" have big: "\<not> a < 9007199254740992"
    by (auto simp: shiftCount_small)
  have split: "a div 2 ^ Suc (shiftCount (a div 2)) = (a div 2) div 2 ^ shiftCount (a div 2)"
    by (simp add: zdiv_zmult2_eq)
  show ?case
  proof (cases "a div 2 < 9007199254740992")
    case True
    with big show ?thesis by (simp add: shiftCount_step shiftCount_small)
  next
    case False
    then have "0 < shiftCount (a div 2)" by (simp add: shiftCount_step)
    with big "1.IH" split show ?thesis by (simp add: shiftCount_step)
  qed
qed

lemma shiftCount_unique:
  "0 < e \<Longrightarrow> 4503599627370496 \<le> q \<Longrightarrow> q < 9007199254740992 \<Longrightarrow> shiftCount (q * 2 ^ e) = e"
proof (induction e)
  case 0
  then show ?case by simp
next
  case (Suc e)
  define n where "n = q * 2 ^ Suc e"
  have half: "n div 2 = q * 2 ^ e" by (simp add: n_def)
  have "(1::int) \<le> 2 ^ e" by simp
  with Suc.prems(2) have "q * 1 \<le> q * 2 ^ e" by (intro mult_left_mono) auto
  then have "2 * q \<le> n" by (simp add: n_def)
  with Suc.prems(2) have big: "\<not> n < 9007199254740992" by linarith
  then have step: "shiftCount n = Suc (shiftCount (n div 2))" by (rule shiftCount_step)
  have "shiftCount (q * 2 ^ e) = e"
  proof (cases "e = 0")
    case True
    with Suc.prems(3) show ?thesis by (simp add: shiftCount_small)
  next
    case False
    with Suc show ?thesis by simp
  qed
  with step half show ?case unfolding n_def by simp
qed

lemma toNumber_unfold:
  "toNumber x =
     (if shiftCount \<bar>x\<bar> > 971
         \<or> (shiftCount \<bar>x\<bar> = 971
            \<and> (if 2 * (\<bar>x\<bar> mod 2 ^ shiftCount \<bar>x\<bar>) > 2 ^ shiftCount \<bar>x\<bar>
                   \<or> (2 * (\<bar>x\<bar> mod 2 ^ shiftCount \<bar>x\<bar>) = 2 ^ shiftCount \<bar>x\<bar>
                      \<and> odd (\<bar>x\<bar> div 2 ^ shiftCount \<bar>x\<bar>))
                then \<bar>x\<bar> div 2 ^ shiftCount \<bar>x\<bar> + 1 else \<bar>x\<bar> div 2 ^ shiftCount \<bar>x\<bar>)
               = 9007199254740992)
      then (if x < 0 then NegInfinity else PosInfinity)
      else Finite (sgn x *
        ((if 2 * (\<bar>x\<bar> mod 2 ^ shiftCount \<bar>x\<bar>) > 2 ^ shiftCount \<bar>x\<bar>
             \<or> (2 * (\<bar>x\<bar> mod 2 ^ shiftCount \<bar>x\<bar>) = 2 ^ shiftCount \<bar>x\<bar>
                \<and> odd (\<bar>x\<bar> div 2 ^ shiftCount \<bar>x\<bar>))
          then \<bar>x\<bar> div 2 ^ shiftCount \<bar>x\<bar> + 1 else \<bar>x\<bar> div 2 ^ shiftCount \<bar>x\<bar>)
         * 2 ^ shiftCount \<bar>x\<bar>)))"
  unfolding toNumber_def Let_def ..

text \<open>A multiple \<open>q * 2 ^ e\<close> with \<open>2 ^ 52 \<le> q < 2 ^ 53\<close> and \<open>e \<le> 971\<close> is a double.\<close>

lemma toNumber_scaled:
  assumes "0 < e" "e \<le> 971" "4503599627370496 \<le> q" "q < 9007199254740992"
    and y: "\<bar>y\<bar> = q * 2 ^ e"
  shows "toNumber y = Finite y"
proof -
  from assms(1,3,4) have sc: "shiftCount \<bar>y\<bar> = e" unfolding y by (rule shiftCount_unique)
  have d: "\<bar>y\<bar> div 2 ^ e = q" "\<bar>y\<bar> mod 2 ^ e = 0" unfolding y by simp_all
  from assms(2,4) have "toNumber y = Finite (sgn y * (q * 2 ^ e))"
    unfolding toNumber_unfold sc d by simp
  also have "sgn y * (q * 2 ^ e) = y" unfolding y [symmetric] by (rule mult_sgn_abs)
  finally show ?thesis .
qed

lemma toNumber_idempotent:
  assumes "toNumber x = Finite y"
  shows "toNumber y = Finite y"
proof (cases "shiftCount \<bar>x\<bar> = 0")
  case True
  have "\<bar>x\<bar> div 2 ^ shiftCount \<bar>x\<bar> < 9007199254740992" by (rule shiftCount_div)
  with True have small: "\<bar>x\<bar> < 9007199254740992" by simp
  with assms have "y = x" by (simp add: toNumber_exact)
  with small show ?thesis by (simp add: toNumber_exact)
next
  case False
  define e where "e = shiftCount \<bar>x\<bar>"
  define q where "q = \<bar>x\<bar> div 2 ^ e"
  define q' where "q' = (if 2 * (\<bar>x\<bar> mod 2 ^ e) > 2 ^ e
      \<or> (2 * (\<bar>x\<bar> mod 2 ^ e) = 2 ^ e \<and> odd q) then q + 1 else q)"
  from False have e: "0 < e" by (simp add: e_def)
  then have lo: "4503599627370496 \<le> q" unfolding q_def e_def by (rule shiftCount_lower)
  have hi: "q < 9007199254740992" unfolding q_def e_def by (rule shiftCount_div)
  have unf: "toNumber x =
      (if e > 971 \<or> (e = 971 \<and> q' = 9007199254740992)
       then (if x < 0 then NegInfinity else PosInfinity)
       else Finite (sgn x * (q' * 2 ^ e)))"
    unfolding toNumber_unfold q'_def q_def e_def ..
  from assms have fin: "\<not> (e > 971 \<or> (e = 971 \<and> q' = 9007199254740992))"
    unfolding unf by (auto split: if_splits)
  with assms have y: "y = sgn x * (q' * 2 ^ e)" unfolding unf by simp
  from lo have pos: "0 < q'" unfolding q'_def by simp
  have "x \<noteq> 0"
  proof
    assume "x = 0"
    then have "shiftCount \<bar>x\<bar> = 0" by (simp add: shiftCount_small)
    with False show False by simp
  qed
  then have "\<bar>sgn x\<bar> = 1" by (simp add: abs_sgn_eq)
  with pos have ay: "\<bar>y\<bar> = q' * 2 ^ e" unfolding y by (simp add: abs_mult)
  show ?thesis
  proof (cases "q' = 9007199254740992")
    case True
    from ay have "\<bar>y\<bar> = 4503599627370496 * 2 ^ Suc e" unfolding True by simp
    moreover from fin True have "Suc e \<le> 971" by auto
    ultimately show ?thesis
      by (intro toNumber_scaled [of "Suc e" 4503599627370496]) simp_all
  next
    case False
    with lo hi have "4503599627370496 \<le> q'" "q' < 9007199254740992"
      unfolding q'_def by (auto split: if_splits)
    moreover from fin have "e \<le> 971" by auto
    ultimately show ?thesis using e ay by (intro toNumber_scaled [of e q'])
  qed
qed

lemma toNumber_double: "isDouble (toNumber x)"
  by (cases "toNumber x") (simp_all add: toNumber_idempotent)

lemma numGt_trans: "numGt a b \<Longrightarrow> numGt b c \<Longrightarrow> numGt a c"
  by (cases a; cases b; cases c) simp_all

lemma numGt_irrefl: "\<not> numGt a a"
  by (cases a) simp_all

lemma numSub_positive: "numGt v b \<Longrightarrow> numGt (numSub v b) (Finite 0)"
  by (cases v; cases b) (simp_all add: toNumber_positive)

lemma numSub_exact:
  "\<bar>a - b\<bar> < 9007199254740992 \<Longrightarrow> numSub (Finite a) (Finite b) = Finite (a - b)"
  by (simp add: toNumber_exact)

lemma numSub_double: "isDouble (numSub a b)"
  by (cases a; cases b) (simp_all add: toNumber_double)

lemma numSub_zero: "isDouble v \<Longrightarrow> numGt v (Finite 0) \<Longrightarrow> numSub v (Finite 0) = v"
  by (cases v) simp_all

section \<open>Properties of the line handlers\<close>

lemma buildLine_cases:
  "(\<not> regexTest [''Regenerating ninja files''] l \<and> numGt (buildProgress l) b
      \<and> buildLine t b l
          = (Some (PercentAdvanced ''Compiling'' (numSub (buildProgress l) b)), buildProgress l))
   \<or> (\<exists>e. buildLine t b l = (e, b) \<and> (\<forall>m i. e \<noteq> Some (PercentAdvanced m i))
         \<and> (regexTest [''Regenerating ninja files''] l \<or> \<not> numGt (buildProgress l) b)
         \<and> (regexTest [''Regenerating ninja files''] l \<or> isNaN (buildProgress l) \<or> e = None))"
  by (cases "buildProgress l") (auto simp: buildLine_def isNaN_def)

lemma feed_append:
  "feed h s (xs @ ys) =
     (case feed h s xs of (es, s') \<Rightarrow> case feed h s' ys of (fs, s'') \<Rightarrow> (es @ fs, s''))"
  by (induction xs arbitrary: s) (auto split: prod.splits option.splits)

lemma feed_append_snd: "snd (feed h s (xs @ ys)) = snd (feed h (snd (feed h s xs)) ys)"
  by (simp add: feed_append split: prod.splits)

lemma feed_Cons:
  "feed h s (l # ls) =
     ((case fst (h s l) of None \<Rightarrow> [] | Some e \<Rightarrow> [e]) @ fst (feed h (snd (h s l)) ls),
      snd (feed h (snd (h s l)) ls))"
  by (auto split: prod.splits option.splits)

lemma percentIncrements_append:
  "percentIncrements (es @ fs) = percentIncrements es @ percentIncrements fs"
  by (induction es rule: percentIncrements.induct) simp_all

lemma percentIncrements_other:
  "\<forall>m i. e \<noteq> Some (PercentAdvanced m i) \<Longrightarrow>
   percentIncrements (case e of None \<Rightarrow> [] | Some x \<Rightarrow> [x]) = []"
proof (cases e)
  case None
  then show ?thesis by simp
next
  case (Some a)
  assume "\<forall>m i. e \<noteq> Some (PercentAdvanced m i)"
  with Some show ?thesis by (cases a) auto
qed

text \<open>What one line does to the list of percent increments and to the baseline.\<close>

lemma buildLine_step:
  "(numGt (snd (buildLine t b l)) b
      \<and> snd (buildLine t b l) = buildProgress l
      \<and> percentIncrements (case fst (buildLine t b l) of None \<Rightarrow> [] | Some e \<Rightarrow> [e])
          = [numSub (buildProgress l) b])
   \<or> (snd (buildLine t b l) = b
      \<and> percentIncrements (case fst (buildLine t b l) of None \<Rightarrow> [] | Some e \<Rightarrow> [e]) = [])"
  using buildLine_cases [of l b t] by (auto simp: percentIncrements_other)

text \<open>Every number the build handler reads, keeps or reports is a double.\<close>

lemma parseInt_double: "isDouble (parseInt s)"
  by (simp add: parseInt_def Let_def toNumber_double)

lemma buildProgress_double: "isDouble (buildProgress line)"
  by (simp add: buildProgress_def parseInt_double)

lemma feed_double:
  "isDouble b \<Longrightarrow>
   isDouble (snd (feed (buildLine t) b ls))
   \<and> (\<forall>i \<in> set (percentIncrements (fst (feed (buildLine t) b ls))). isDouble i)"
proof (induction ls arbitrary: b)
  case Nil
  then show ?case by simp
next
  case (Cons l ls)
  from buildLine_step [of t b l] Cons.prems
  have "isDouble (snd (buildLine t b l))"
    and "\<forall>i \<in> set (percentIncrements (case fst (buildLine t b l) of None \<Rightarrow> [] | Some e \<Rightarrow> [e])).
           isDouble i"
    by (auto simp: buildProgress_double numSub_double)
  with Cons.IH [of "snd (buildLine t b l)"] show ?case
    unfolding feed_Cons fst_conv snd_conv percentIncrements_append by auto
qed

lemma buildLine_baseline: "snd (buildLine t b l) = b \<or> numGt (snd (buildLine t b l)) b"
  using buildLine_step [of t b l] by blast

lemma feed_baseline:
  "snd (feed (buildLine t) b ls) = b \<or> numGt (snd (feed (buildLine t) b ls)) b"
proof (induction ls arbitrary: b)
  case Nil
  show ?case by simp
next
  case (Cons l ls)
  from Cons.IH [of "snd (buildLine t b l)"] buildLine_baseline [of t b l]
  show ?case unfolding feed_Cons snd_conv by (auto intro: numGt_trans)
qed

lemma feed_positive:
  "i \<in> set (percentIncrements (fst (feed (buildLine t) b ls))) \<Longrightarrow> numGt i (Finite 0)"
proof (induction ls arbitrary: b)
  case Nil
  then show ?case by simp
next
  case (Cons l ls)
  from Cons.prems consider
    "i \<in> set (percentIncrements (case fst (buildLine t b l) of None \<Rightarrow> [] | Some e \<Rightarrow> [e]))"
    | "i \<in> set (percentIncrements (fst (feed (buildLine t) (snd (buildLine t b l)) ls)))"
    unfolding feed_Cons fst_conv percentIncrements_append by auto
  then show ?case
  proof cases
    case 1
    with buildLine_step [of t b l] show ?thesis by (auto simp: numSub_positive)
  next
    case 2
    then show ?thesis by (rule Cons.IH)
  qed
qed

lemma feed_sum_exact:
  "0 \<le> b0 \<Longrightarrow> snd (feed (buildLine t) (Finite b0) ls) = Finite f \<Longrightarrow> f < 9007199254740992 \<Longrightarrow>
   \<exists>is. percentIncrements (fst (feed (buildLine t) (Finite b0) ls)) = map Finite is
        \<and> sum_list is = f - b0 \<and> b0 \<le> f"
proof (induction ls arbitrary: b0)
  case Nil
  then show ?case by simp
next
  case (Cons l ls)
  let ?b = "snd (buildLine t (Finite b0) l)"
  from Cons.prems(2) have fin: "snd (feed (buildLine t) ?b ls) = Finite f"
    unfolding feed_Cons snd_conv .
  from buildLine_step [of t "Finite b0" l] show ?case
  proof (elim disjE conjE)
    assume up: "numGt ?b (Finite b0)" and v: "?b = buildProgress l"
      and inc: "percentIncrements (case fst (buildLine t (Finite b0) l) of None \<Rightarrow> [] | Some e \<Rightarrow> [e])
          = [numSub (buildProgress l) (Finite b0)]"
    from feed_baseline [of t ?b ls] fin have "Finite f = ?b \<or> numGt (Finite f) ?b" by auto
    with up obtain v' where v': "?b = Finite v'" "b0 < v'" "v' \<le> f"
      by (cases ?b) auto
    with Cons.prems(1) have "0 \<le> v'" by simp
    from Cons.IH [OF this] fin v'(1) Cons.prems(3) obtain "is" where
      "is": "percentIncrements (fst (feed (buildLine t) (Finite v') ls)) = map Finite is"
        "sum_list is = f - v'"
      by auto
    from v' Cons.prems(1,3) have "\<bar>v' - b0\<bar> < 9007199254740992" by simp
    then have "numSub (Finite v') (Finite b0) = Finite (v' - b0)" by (rule numSub_exact)
    with inc v v'(1) "is"(1)
    have "percentIncrements (fst (feed (buildLine t) (Finite b0) (l # ls))) = map Finite ((v' - b0) # is)"
      unfolding feed_Cons fst_conv percentIncrements_append by simp
    moreover from "is"(2) have "sum_list ((v' - b0) # is) = f - b0" by simp
    moreover from v' have "b0 \<le> f" by simp
    ultimately show ?thesis by blast
  next
    assume same: "?b = Finite b0"
      and inc: "percentIncrements (case fst (buildLine t (Finite b0) l) of None \<Rightarrow> [] | Some e \<Rightarrow> [e]) = []"
    from Cons.IH [OF Cons.prems(1) _ Cons.prems(3)] fin same obtain "is" where
      "percentIncrements (fst (feed (buildLine t) (Finite b0) ls)) = map Finite is"
      "sum_list is = f - b0" "b0 \<le> f"
      by auto
    with inc same show ?thesis
      unfolding feed_Cons fst_conv percentIncrements_append by auto
  qed
qed

text \<open>
  Claim C6.  For a build, in either variant, the four lines \<open>Running ninja...\<close>,
  \<open>10% 5/50\<close>, \<open>25% 12/50\<close>, \<open>30% 15/50\<close> give exactly the reports Starting,
  Compiling with increment 10, Compiling with increment 15 and Compiling with increment
  5, and the percentage they add up to is 30.
\<close>

theorem build_end_to_end_events:
  "buildLines t [''Running ninja...'', ''10% 5/50'', ''25% 12/50'', ''30% 15/50'']
     = ([PhaseChanged ''Starting'' None, PercentAdvanced ''Compiling'' (Finite 10),
         PercentAdvanced ''Compiling'' (Finite 15), PercentAdvanced ''Compiling'' (Finite 5)],
        Finite 30)
   \<and> cumulative (fst (buildLines t
         [''Running ninja...'', ''10% 5/50'', ''25% 12/50'', ''30% 15/50''])) = Finite 30"
proof (cases t)
  case DirectPipe
  show ?thesis unfolding DirectPipe by code_simp
next
  case SocketRelay
  show ?thesis unfolding SocketRelay by code_simp
qed

text \<open>
  Above \<open>2 ^ 53\<close> the increments are rounded and need not add up.  The lines \<open>1%\<close>,
  \<open>1152921504606846976%\<close> (which is \<open>2 ^ 60\<close>) and \<open>1152921504606847232%\<close>
  (\<open>2 ^ 60 + 256\<close>) give the increments 1, \<open>2 ^ 60\<close> and 256, since \<open>2 ^ 60 - 1\<close> is no
  double and rounds to \<open>2 ^ 60\<close>; their sum is one more than the final baseline.
\<close>

theorem large_increments_do_not_add_up:
  "buildLines DirectPipe [''1%'', ''1152921504606846976%'', ''1152921504606847232%'']
     = ([PercentAdvanced ''Compiling'' (Finite 1),
         PercentAdvanced ''Compiling'' (Finite 1152921504606846976),
         PercentAdvanced ''Compiling'' (Finite 256)],
        Finite 1152921504606847232)
   \<and> buildLines SocketRelay [''1%'', ''1152921504606846976%'', ''1152921504606847232%'']
     = ([PercentAdvanced ''Compiling'' (Finite 1),
         PercentAdvanced ''Compiling'' (Finite 1152921504606846976),
         PercentAdvanced ''Compiling'' (Finite 256)],
        Finite 1152921504606847232)
   \<and> sum_list [1, 1152921504606846976, 256] \<noteq> (1152921504606847232 - 0 :: int)"
  by code_simp

text \<open>
  Claim C3, as the code has it.  Whatever lines are fed to the build handler, from
  whatever baseline: every percent report has a strictly positive increment, and the
  baseline never decreases (it stays or goes up over the lines fed, and feeding further
  lines never lowers it).  When the initial baseline is a non-negative integer and the
  final baseline is an integer below \<open>2 ^ 53\<close>, all increments are integers and add up
  to the final baseline minus the initial one.  In particular \<open>50% 5/10\<close>, \<open>30% 3/10\<close>,
  \<open>70% 7/10\<close> from baseline 0 give exactly two reports, with increments 50 and 20.
\<close>

theorem build_increments_monotone:
  "(\<forall>i \<in> set (percentIncrements (fst (feed (buildLine t) b ls))). numGt i (Finite 0))
   \<and> (snd (feed (buildLine t) b ls) = b \<or> numGt (snd (feed (buildLine t) b ls)) b)
   \<and> (snd (feed (buildLine t) b (ls @ further)) = snd (feed (buildLine t) b ls)
      \<or> numGt (snd (feed (buildLine t) b (ls @ further))) (snd (feed (buildLine t) b ls)))
   \<and> (0 \<le> b0 \<and> snd (feed (buildLine t) (Finite b0) ls) = Finite f \<and> f < 9007199254740992
      \<longrightarrow> (\<exists>is. percentIncrements (fst (feed (buildLine t) (Finite b0) ls)) = map Finite is
                \<and> sum_list is = f - b0))
   \<and> feed (buildLine t) (Finite 0) [''50% 5/10'', ''30% 3/10'', ''70% 7/10'']
       = ([PercentAdvanced ''Compiling'' (Finite 50), PercentAdvanced ''Compiling'' (Finite 20)],
          Finite 70)"
proof -
  have ex: "feed (buildLine t) (Finite 0) [''50% 5/10'', ''30% 3/10'', ''70% 7/10'']
       = ([PercentAdvanced ''Compiling'' (Finite 50), PercentAdvanced ''Compiling'' (Finite 20)],
          Finite 70)"
  proof (cases t)
    case DirectPipe
    show ?thesis unfolding DirectPipe by code_simp
  next
    case SocketRelay
    show ?thesis unfolding SocketRelay by code_simp
  qed
  have further: "snd (feed (buildLine t) b (ls @ further)) = snd (feed (buildLine t) b ls)
      \<or> numGt (snd (feed (buildLine t) b (ls @ further))) (snd (feed (buildLine t) b ls))"
    using feed_baseline [of t "snd (feed (buildLine t) b ls)" further]
    by (simp add: feed_append_snd)
  have exact: "0 \<le> b0 \<and> snd (feed (buildLine t) (Finite b0) ls) = Finite f \<and> f < 9007199254740992
      \<longrightarrow> (\<exists>is. percentIncrements (fst (feed (buildLine t) (Finite b0) ls)) = map Finite is
                \<and> sum_list is = f - b0)"
    using feed_sum_exact [of b0 t ls f] by blast
  from ex further exact show ?thesis
    using feed_positive [of _ t b ls] feed_baseline [of t b ls]
    by blast
qed

theorem build_increments_monotone_witness:
  "percentIncrements (fst (feed (buildLine SocketRelay) (Finite 10) [''50% 5/10'', ''30% 3/10'']))
     = [Finite 40]
   \<and> snd (feed (buildLine SocketRelay) (Finite 10) [''50% 5/10'', ''30% 3/10'']) = Finite 50
   \<and> snd (feed (buildLine SocketRelay) (Finite 10) ([''50% 5/10'', ''30% 3/10''] @ [''70% 7/10'']))
     = Finite 70
   \<and> list_all (\<lambda>i. numGt i (Finite 0))
        (percentIncrements (fst (feed (buildLine SocketRelay) (Finite 10) [''50% 5/10'', ''30% 3/10''])))
   \<and> numGt (snd (feed (buildLine SocketRelay) (Finite 10) [''50% 5/10'', ''30% 3/10''])) (Finite 10)
   \<and> numGt (snd (feed (buildLine SocketRelay) (Finite 10) ([''50% 5/10'', ''30% 3/10''] @ [''70% 7/10''])))
        (snd (feed (buildLine SocketRelay) (Finite 10) [''50% 5/10'', ''30% 3/10'']))
   \<and> (\<exists>is. percentIncrements (fst (feed (buildLine SocketRelay) (Finite 10) [''50% 5/10'', ''30% 3/10'']))
             = map Finite is
          \<and> sum_list is = 50 - 10)"
proof -
  have a: "percentIncrements (fst (feed (buildLine SocketRelay) (Finite 10) [''50% 5/10'', ''30% 3/10'']))
     = [Finite 40]"
    by code_simp
  have b: "snd (feed (buildLine SocketRelay) (Finite 10) [''50% 5/10'', ''30% 3/10'']) = Finite 50"
    by code_simp
  have c: "snd (feed (buildLine SocketRelay) (Finite 10) ([''50% 5/10'', ''30% 3/10''] @ [''70% 7/10'']))
     = Finite 70"
    by code_simp
  have d: "(0::int) \<le> 10" "(50::int) < 9007199254740992" by simp_all
  from a b c d
    build_increments_monotone [of SocketRelay "Finite 10" "[''50% 5/10'', ''30% 3/10'']"
      "[''70% 7/10'']" 10 50]
  show ?thesis unfolding list_all_iff by auto
qed

lemma jsSplit_nonempty: "jsSplit sep s \<noteq> []"
  by (induction s) (auto split: list.splits)

lemma hd_jsSplit: "hd (jsSplit sep s) = takeWhile (\<lambda>c. c \<noteq> sep) s"
  by (induction s) (auto simp: jsSplit_nonempty split: list.splits)

lemma startsWith_append: "startsWith p (p @ r)"
  by (induction p) simp_all

lemma regexTest_literal: "regexTest [p] (pre @ p @ post)"
proof (induction pre)
  case Nil
  show ?case by (cases "p @ post") (use startsWith_append [of p post] in auto)
next
  case (Cons c pre)
  then show ?case by simp
qed

text \<open>
  Claim C4, as the handler has it.  The number the percent rule reads is \<open>parseInt\<close> of
  the trimmed text before the first percent sign, which is the whole line when the line
  has none.  A line gives a percent report exactly when it does not contain the
  regenerating marker and that number is strictly greater than the baseline, which
  \<open>NaN\<close> never is; the report then has the message Compiling and as its increment the
  JavaScript difference of the number and the baseline, and the baseline becomes the
  number.  A line for which \<open>NaN\<close> is read gives no percent report.  For an integer
  number and an integer baseline less than \<open>2 ^ 53\<close> apart the increment is exactly
  their difference.
\<close>

theorem build_percent_rule:
  "buildProgress line = parseInt (trim (takeWhile (\<lambda>c. c \<noteq> CHR ''%'') line))
   \<and> (fst (buildLine t b line) = Some (PercentAdvanced m i)
        \<longleftrightarrow> \<not> regexTest [''Regenerating ninja files''] line
            \<and> numGt (buildProgress line) b
            \<and> i = numSub (buildProgress line) b \<and> m = ''Compiling'')
   \<and> (fst (buildLine t b line) = Some (PercentAdvanced m i)
        \<longrightarrow> snd (buildLine t b line) = buildProgress line)
   \<and> (isNaN (buildProgress line) \<longrightarrow> fst (buildLine t b line) \<noteq> Some (PercentAdvanced m i))
   \<and> (b = Finite b0 \<and> buildProgress line = Finite v \<and> \<bar>v - b0\<bar> < 9007199254740992
        \<longrightarrow> numSub (buildProgress line) b = Finite (v - b0))"
proof -
  have "buildProgress line = parseInt (trim (takeWhile (\<lambda>c. c \<noteq> CHR ''%'') line))"
    by (simp add: buildProgress_def hd_jsSplit)
  moreover have "fst (buildLine t b line) = Some (PercentAdvanced m i)
        \<longleftrightarrow> \<not> regexTest [''Regenerating ninja files''] line
            \<and> numGt (buildProgress line) b
            \<and> i = numSub (buildProgress line) b \<and> m = ''Compiling''"
    using buildLine_cases [of line b t] by auto
  moreover have "fst (buildLine t b line) = Some (PercentAdvanced m i)
        \<longrightarrow> snd (buildLine t b line) = buildProgress line"
    using buildLine_cases [of line b t] by auto
  moreover have "isNaN (buildProgress line) \<longrightarrow> fst (buildLine t b line) \<noteq> Some (PercentAdvanced m i)"
    using buildLine_cases [of line b t] by (auto simp: isNaN_def)
  moreover have "b = Finite b0 \<and> buildProgress line = Finite v \<and> \<bar>v - b0\<bar> < 9007199254740992
        \<longrightarrow> numSub (buildProgress line) b = Finite (v - b0)"
    by (auto simp: toNumber_exact)
  ultimately show ?thesis by blast
qed

text \<open>
  The rule at work: \<open>25% 12/50\<close> from baseline 10 reports an increment of 15, and a
  line that does not start with a number reports no percentage.
\<close>

theorem build_percent_rule_witness:
  "buildProgress ''25% 12/50'' = Finite 25
   \<and> fst (buildLine DirectPipe (Finite 10) ''25% 12/50'')
       = Some (PercentAdvanced ''Compiling'' (Finite (25 - 10)))
   \<and> snd (buildLine DirectPipe (Finite 10) ''25% 12/50'') = Finite 25
   \<and> isNaN (buildProgress ''[12/50] CXX obj/foo.o'')
   \<and> fst (buildLine DirectPipe (Finite 10) ''[12/50] CXX obj/foo.o'')
       \<noteq> Some (PercentAdvanced ''Compiling'' (Finite 15))"
proof -
  have a: "\<not> regexTest [''Regenerating ninja files''] ''25% 12/50''" by code_simp
  have b: "buildProgress ''25% 12/50'' = Finite 25" by code_simp
  have c: "isNaN (buildProgress ''[12/50] CXX obj/foo.o'')" by code_simp
  have d: "numGt (Finite 25) (Finite 10)" "\<bar>25 - 10 :: int\<bar> < 9007199254740992" by simp_all
  from a b c d
    build_percent_rule [of "''25% 12/50''" DirectPipe "Finite 10" "''Compiling''" "Finite (25 - 10)" 10 25]
    build_percent_rule [of "''[12/50] CXX obj/foo.o''" DirectPipe "Finite 10" "''Compiling''" "Finite 15"]
  show ?thesis by (simp add: isNaN_def toNumber_exact)
qed

text \<open>
  The percent sign is not looked for: a line that starts with a number and has no
  percent sign at all is read as a percentage.
\<close>

theorem percent_sign_not_required:
  "CHR ''%'' \<notin> set ''42 files compiled''
   \<and> buildLine DirectPipe (Finite 0) ''42 files compiled''
       = (Some (PercentAdvanced ''Compiling'' (Finite 42)), Finite 42)
   \<and> buildLine SocketRelay (Finite 0) ''42 files compiled''
       = (Some (PercentAdvanced ''Compiling'' (Finite 42)), Finite 42)"
  by code_simp

text \<open>
  The regenerating marker is matched as it is spelt: the regular expression has no
  \<open>i\<close> flag, and the marker in capitals gives no report.
\<close>

theorem regenerating_marker_case_sensitive:
  "buildLine DirectPipe (Finite 0) ''REGENERATING NINJA FILES'' = (None, Finite 0)
   \<and> buildLine SocketRelay (Finite 0) ''REGENERATING NINJA FILES'' = (None, Finite 0)"
  by code_simp

text \<open>
  Claim C5, as the handler has it.  Every line that contains \<open>Regenerating ninja files\<close>
  in exactly this spelling gives the report Regenerating Ninja Files with increment 0
  and leaves the baseline alone; the rule comes first, so this holds whatever the
  percent rule would read from the line.
\<close>

theorem regenerating_rule_first:
  "line = pre @ ''Regenerating ninja files'' @ post \<Longrightarrow>
   buildLine t b line = (Some (PhaseChanged ''Regenerating Ninja Files'' (Some (Finite 0))), b)
   \<and> increment (PhaseChanged ''Regenerating Ninja Files'' (Some (Finite 0))) = Finite 0"
  using regexTest_literal [of "''Regenerating ninja files''" pre post]
  by (simp add: buildLine_def)

text \<open>A line that starts with a percentage and contains the marker: the marker wins.\<close>

theorem regenerating_rule_first_witness:
  "''60% Regenerating ninja files...'' = ''60% '' @ ''Regenerating ninja files'' @ ''...''
   \<and> buildProgress ''60% Regenerating ninja files...'' = Finite 60
   \<and> buildLine SocketRelay (Finite 10) ''60% Regenerating ninja files...''
       = (Some (PhaseChanged ''Regenerating Ninja Files'' (Some (Finite 0))), Finite 10)"
proof -
  have a: "''60% Regenerating ninja files...'' = ''60% '' @ ''Regenerating ninja files'' @ ''...''"
    by simp
  have b: "buildProgress ''60% Regenerating ninja files...'' = Finite 60" by code_simp
  from a b regenerating_rule_first [OF a, of SocketRelay "Finite 10"] show ?thesis by simp
qed

lemma feed_first_percent:
  "percentIncrements (fst (feed (buildLine t) b ls)) = i # rest \<Longrightarrow>
   numGt i (Finite 0)
   \<and> (\<exists>pre l post. ls = pre @ l # post
         \<and> percentIncrements (fst (feed (buildLine t) b pre)) = []
         \<and> snd (feed (buildLine t) b pre) = b
         \<and> numGt (buildProgress l) b
         \<and> i = numSub (buildProgress l) b)"
proof (induction ls)
  case Nil
  then show ?case by simp
next
  case (Cons l ls)
  from buildLine_cases [of l b t] consider
    (percent) "numGt (buildProgress l) b"
      "buildLine t b l
          = (Some (PercentAdvanced ''Compiling'' (numSub (buildProgress l) b)), buildProgress l)"
    | (other) e where "buildLine t b l = (e, b)" "\<forall>m i. e \<noteq> Some (PercentAdvanced m i)"
    by blast
  then show ?case
  proof cases
    case percent
    with Cons.prems have i: "i = numSub (buildProgress l) b" by (simp split: prod.splits)
    with percent(1) have "numGt i (Finite 0)" by (simp add: numSub_positive)
    moreover from percent(1) i have "l # ls = [] @ l # ls
        \<and> percentIncrements (fst (feed (buildLine t) b [])) = []
        \<and> snd (feed (buildLine t) b []) = b
        \<and> numGt (buildProgress l) b \<and> i = numSub (buildProgress l) b"
      by simp
    ultimately show ?thesis by blast
  next
    case other
    then have none: "percentIncrements (case e of None \<Rightarrow> [] | Some x \<Rightarrow> [x]) = []"
      by (simp add: percentIncrements_other)
    have step: "feed (buildLine t) b (l # xs)
        = ((case e of None \<Rightarrow> [] | Some x \<Rightarrow> [x]) @ fst (feed (buildLine t) b xs),
           snd (feed (buildLine t) b xs))" for xs
      by (subst feed_Cons) (simp add: other)
    from Cons.prems have "percentIncrements (fst (feed (buildLine t) b ls)) = i # rest"
      by (simp add: step percentIncrements_append none del: feed.simps)
    from Cons.IH [OF this] obtain pre l' post where
      p: "numGt i (Finite 0)" "ls = pre @ l' # post"
        "percentIncrements (fst (feed (buildLine t) b pre)) = []"
        "snd (feed (buildLine t) b pre) = b"
        "numGt (buildProgress l') b" "i = numSub (buildProgress l') b"
      by blast
    then have "l # ls = (l # pre) @ l' # post
        \<and> percentIncrements (fst (feed (buildLine t) b (l # pre))) = []
        \<and> snd (feed (buildLine t) b (l # pre)) = b
        \<and> numGt (buildProgress l') b \<and> i = numSub (buildProgress l') b"
      by (simp add: step percentIncrements_append none del: feed.simps)
    with p(1) show ?thesis by blast
  qed
qed

text \<open>
  The regenerating rule comes before the percent rule: a line that starts with \<open>0%\<close>
  and contains the marker is read as 0 by \<open>parseInt\<close> and still gives a report.
\<close>

theorem nonpositive_percent_with_marker_reports:
  "buildProgress ''0% 0/1 Regenerating ninja files'' = Finite 0
   \<and> buildLine DirectPipe (Finite 0) ''0% 0/1 Regenerating ninja files''
       = (Some (PhaseChanged ''Regenerating Ninja Files'' (Some (Finite 0))), Finite 0)
   \<and> buildLine SocketRelay (Finite 0) ''0% 0/1 Regenerating ninja files''
       = (Some (PhaseChanged ''Regenerating Ninja Files'' (Some (Finite 0))), Finite 0)"
  by code_simp

text \<open>
  Claim C10, as the handler has it.  A build starts with baseline 0.  A line whose
  number is not greater than 0 gives no percent report, at the start and after any
  lines fed before it; when its number is not \<open>NaN\<close> and the line does not contain the
  regenerating marker, it gives no report at all.  So the first percent report of a
  build comes from a line with a strictly positive number and has a strictly positive
  increment, the JavaScript difference of that number and 0, which is the number
  itself: there is no percent report and the baseline is 0 before it.
\<close>

theorem first_percent_positive:
  "buildLines t [] = ([], Finite 0)
   \<and> (\<not> numGt (buildProgress line) (Finite 0)
        \<longrightarrow> fst (buildLine t (snd (buildLines t ls)) line) \<noteq> Some (PercentAdvanced m j))
   \<and> (\<not> regexTest [''Regenerating ninja files''] line \<and> \<not> isNaN (buildProgress line)
       \<and> \<not> numGt (buildProgress line) (Finite 0)
        \<longrightarrow> buildLine t (snd (buildLines t ls)) line = (None, snd (buildLines t ls)))
   \<and> (percentIncrements (fst (buildLines t ls)) = i # rest
        \<longrightarrow> numGt i (Finite 0)
          \<and> (\<exists>pre l post. ls = pre @ l # post
                \<and> percentIncrements (fst (buildLines t pre)) = []
                \<and> snd (buildLines t pre) = Finite 0
                \<and> numGt (buildProgress l) (Finite 0)
                \<and> i = numSub (buildProgress l) (Finite 0) \<and> i = buildProgress l))"
proof -
  let ?b = "snd (buildLines t ls)"
  have base: "?b = Finite 0 \<or> numGt ?b (Finite 0)"
    unfolding buildLines_def by (rule feed_baseline)
  have below: "\<not> numGt (buildProgress line) ?b" if "\<not> numGt (buildProgress line) (Finite 0)"
    using that base by (auto dest: numGt_trans)
  have "\<not> numGt (buildProgress line) (Finite 0)
        \<longrightarrow> fst (buildLine t ?b line) \<noteq> Some (PercentAdvanced m j)"
    using buildLine_cases [of line ?b t] below by auto
  moreover have "\<not> regexTest [''Regenerating ninja files''] line \<and> \<not> isNaN (buildProgress line)
       \<and> \<not> numGt (buildProgress line) (Finite 0)
        \<longrightarrow> buildLine t ?b line = (None, ?b)"
    using buildLine_cases [of line ?b t] below by auto
  moreover have "percentIncrements (fst (buildLines t ls)) = i # rest
        \<longrightarrow> numGt i (Finite 0)
          \<and> (\<exists>pre l post. ls = pre @ l # post
                \<and> percentIncrements (fst (buildLines t pre)) = []
                \<and> snd (buildLines t pre) = Finite 0
                \<and> numGt (buildProgress l) (Finite 0)
                \<and> i = numSub (buildProgress l) (Finite 0) \<and> i = buildProgress l)"
  proof
    assume "percentIncrements (fst (buildLines t ls)) = i # rest"
    then have "percentIncrements (fst (feed (buildLine t) (Finite 0) ls)) = i # rest"
      by (simp add: buildLines_def)
    from feed_first_percent [OF this] obtain pre l post where
      p: "numGt i (Finite 0)" "ls = pre @ l # post"
        "percentIncrements (fst (feed (buildLine t) (Finite 0) pre)) = []"
        "snd (feed (buildLine t) (Finite 0) pre) = Finite 0"
        "numGt (buildProgress l) (Finite 0)" "i = numSub (buildProgress l) (Finite 0)"
      by blast
    from p(5) have "numSub (buildProgress l) (Finite 0) = buildProgress l"
      by (simp add: numSub_zero buildProgress_double)
    with p(6) have "i = buildProgress l" by simp
    with p have "ls = pre @ l # post
        \<and> percentIncrements (fst (buildLines t pre)) = []
        \<and> snd (buildLines t pre) = Finite 0
        \<and> numGt (buildProgress l) (Finite 0)
        \<and> i = numSub (buildProgress l) (Finite 0) \<and> i = buildProgress l"
      by (simp add: buildLines_def)
    then have "\<exists>pre l post. ls = pre @ l # post
        \<and> percentIncrements (fst (buildLines t pre)) = []
        \<and> snd (buildLines t pre) = Finite 0
        \<and> numGt (buildProgress l) (Finite 0)
        \<and> i = numSub (buildProgress l) (Finite 0) \<and> i = buildProgress l"
      by (intro exI)
    with p(1) show "numGt i (Finite 0)
          \<and> (\<exists>pre l post. ls = pre @ l # post
                \<and> percentIncrements (fst (buildLines t pre)) = []
                \<and> snd (buildLines t pre) = Finite 0
                \<and> numGt (buildProgress l) (Finite 0)
                \<and> i = numSub (buildProgress l) (Finite 0) \<and> i = buildProgress l)"
      by (rule conjI)
  qed
  moreover have "buildLines t [] = ([], Finite 0)" by (simp add: buildLines_def)
  ultimately show ?thesis by blast
qed

text \<open>\<open>0% 0/10\<close> and \<open>-3% 0/10\<close> are passed over; the first report is that of \<open>7% 1/10\<close>.\<close>

theorem first_percent_positive_witness:
  "buildProgress ''0% 0/10'' = Finite 0
   \<and> buildLine DirectPipe (snd (buildLines DirectPipe [])) ''0% 0/10''
       = (None, snd (buildLines DirectPipe []))
   \<and> percentIncrements (fst (buildLines DirectPipe [''0% 0/10'', ''-3% 0/10'', ''7% 1/10'']))
       = [Finite 7]
   \<and> (\<exists>pre l post. [''0% 0/10'', ''-3% 0/10'', ''7% 1/10''] = pre @ l # post
         \<and> percentIncrements (fst (buildLines DirectPipe pre)) = []
         \<and> snd (buildLines DirectPipe pre) = Finite 0
         \<and> numGt (buildProgress l) (Finite 0)
         \<and> Finite 7 = numSub (buildProgress l) (Finite 0) \<and> Finite 7 = buildProgress l)"
proof -
  have a: "\<not> regexTest [''Regenerating ninja files''] ''0% 0/10''" by code_simp
  have b: "buildProgress ''0% 0/10'' = Finite 0" by code_simp
  have c: "percentIncrements (fst (buildLines DirectPipe [''0% 0/10'', ''-3% 0/10'', ''7% 1/10'']))
       = [Finite 7]"
    by code_simp
  have d: "\<not> isNaN (buildProgress ''0% 0/10'')"
    "\<not> numGt (buildProgress ''0% 0/10'') (Finite 0)"
    unfolding b by (simp_all add: isNaN_def)
  note start = first_percent_positive
    [of DirectPipe "''0% 0/10''" "[]" "''Compiling''" "Finite 1" "Finite 7" "[]"]
  note run = first_percent_positive
    [of DirectPipe "''0% 0/10''" "[''0% 0/10'', ''-3% 0/10'', ''7% 1/10'']"
      "''Compiling''" "Finite 1" "Finite 7" "[]"]
  from a d have "\<not> regexTest [''Regenerating ninja files''] ''0% 0/10''
       \<and> \<not> isNaN (buildProgress ''0% 0/10'')
       \<and> \<not> numGt (buildProgress ''0% 0/10'') (Finite 0)"
    by simp
  with start [THEN conjunct2, THEN conjunct2, THEN conjunct1]
  have 1: "buildLine DirectPipe (snd (buildLines DirectPipe [])) ''0% 0/10''
       = (None, snd (buildLines DirectPipe []))"
    by (rule mp)
  from run [THEN conjunct2, THEN conjunct2, THEN conjunct2] c
  have "numGt (Finite 7) (Finite 0)
     \<and> (\<exists>pre l post. [''0% 0/10'', ''-3% 0/10'', ''7% 1/10''] = pre @ l # post
         \<and> percentIncrements (fst (buildLines DirectPipe pre)) = []
         \<and> snd (buildLines DirectPipe pre) = Finite 0
         \<and> numGt (buildProgress l) (Finite 0)
         \<and> Finite 7 = numSub (buildProgress l) (Finite 0) \<and> Finite 7 = buildProgress l)"
    by (rule mp)
  then have 2: "\<exists>pre l post. [''0% 0/10'', ''-3% 0/10'', ''7% 1/10''] = pre @ l # post
         \<and> percentIncrements (fst (buildLines DirectPipe pre)) = []
         \<and> snd (buildLines DirectPipe pre) = Finite 0
         \<and> numGt (buildProgress l) (Finite 0)
         \<and> Finite 7 = numSub (buildProgress l) (Finite 0) \<and> Finite 7 = buildProgress l"
    by (rule conjunct2)
  from b 1 c 2 show ?thesis by (intro conjI)
qed

lemma syncLine_unmatched:
  "\<not> regexTest [''running'', ''apply_all_patches.py''] l
   \<Longrightarrow> \<not> regexTest [''Hook'', ''apply_all_patches.py'', ''took''] l
   \<Longrightarrow> syncLine ip l = (if ip then None else Some (PhaseChanged ''Dependencies'' None), True)"
  by (simp add: syncLine_def)

lemma feed_sync_unmatched_after:
  "\<forall>l \<in> set ls. \<not> regexTest [''running'', ''apply_all_patches.py''] l
                  \<and> \<not> regexTest [''Hook'', ''apply_all_patches.py'', ''took''] l
   \<Longrightarrow> feed syncLine True ls = ([], True)"
  by (induction ls) (simp_all add: syncLine_unmatched)

lemma feed_sync_unmatched_first:
  "ls \<noteq> [] \<Longrightarrow>
   \<forall>l \<in> set ls. \<not> regexTest [''running'', ''apply_all_patches.py''] l
                  \<and> \<not> regexTest [''Hook'', ''apply_all_patches.py'', ''took''] l
   \<Longrightarrow> feed syncLine False ls = ([PhaseChanged ''Dependencies'' None], True)"
  by (cases ls) (simp_all add: syncLine_unmatched feed_sync_unmatched_after)

text \<open>
  The two regular expressions of the sync handler are tried in order.  A line that
  matches the one for the hook's elapsed time and also the one for the running patch
  script is taken by the first rule and reports Applying Patches.
\<close>

theorem completion_line_taken_by_first_rule:
  "regexTest [''Hook'', ''apply_all_patches.py'', ''took''] ''Hook running apply_all_patches.py took 3s''
   \<and> syncLine False ''Hook running apply_all_patches.py took 3s''
       = (Some (PhaseChanged ''Applying Patches'' None), False)
   \<and> syncLine True ''Hook running apply_all_patches.py took 3s''
       = (Some (PhaseChanged ''Applying Patches'' None), True)"
  by code_simp

text \<open>
  Claim C7, as the handler has it.  For a sync, ten lines that match neither regular
  expression followed by a line that matches the one for the running patch script give
  exactly two reports: Dependencies, which the first line already gives and the other
  nine do not repeat, and then Applying Patches.  A line that matches the expression
  for the hook's elapsed time and does not match the one for the running patch script
  gives Finishing Up.
\<close>

theorem sync_dependencies_once:
  "(length ls = 10
    \<and> (\<forall>l \<in> set ls. \<not> regexTest [''running'', ''apply_all_patches.py''] l
                      \<and> \<not> regexTest [''Hook'', ''apply_all_patches.py'', ''took''] l)
    \<and> regexTest [''running'', ''apply_all_patches.py''] p
    \<longrightarrow> syncLines [hd ls] = ([PhaseChanged ''Dependencies'' None], True)
      \<and> syncLines ls = ([PhaseChanged ''Dependencies'' None], True)
      \<and> syncLines (ls @ [p])
          = ([PhaseChanged ''Dependencies'' None, PhaseChanged ''Applying Patches'' None], True))
   \<and> (\<not> regexTest [''running'', ''apply_all_patches.py''] h
      \<and> regexTest [''Hook'', ''apply_all_patches.py'', ''took''] h
    \<longrightarrow> syncLine initialProgress h = (Some (PhaseChanged ''Finishing Up'' None), initialProgress))"
proof -
  have "syncLines [hd ls] = ([PhaseChanged ''Dependencies'' None], True)
      \<and> syncLines ls = ([PhaseChanged ''Dependencies'' None], True)
      \<and> syncLines (ls @ [p])
          = ([PhaseChanged ''Dependencies'' None, PhaseChanged ''Applying Patches'' None], True)"
    if len: "length ls = 10"
      and un: "\<forall>l \<in> set ls. \<not> regexTest [''running'', ''apply_all_patches.py''] l
                      \<and> \<not> regexTest [''Hook'', ''apply_all_patches.py'', ''took''] l"
      and p: "regexTest [''running'', ''apply_all_patches.py''] p"
  proof -
    from len have ne: "ls \<noteq> []" by auto
    then have "hd ls \<in> set ls" by simp
    with un have "syncLines [hd ls] = ([PhaseChanged ''Dependencies'' None], True)"
      by (simp add: syncLines_def syncLine_unmatched)
    moreover from ne un have all: "syncLines ls = ([PhaseChanged ''Dependencies'' None], True)"
      unfolding syncLines_def by (rule feed_sync_unmatched_first)
    moreover from p have "syncLine True p = (Some (PhaseChanged ''Applying Patches'' None), True)"
      by (simp add: syncLine_def)
    with all have "syncLines (ls @ [p])
          = ([PhaseChanged ''Dependencies'' None, PhaseChanged ''Applying Patches'' None], True)"
      by (simp add: syncLines_def feed_append)
    ultimately show ?thesis by blast
  qed
  moreover have "\<not> regexTest [''running'', ''apply_all_patches.py''] h
      \<and> regexTest [''Hook'', ''apply_all_patches.py'', ''took''] h
    \<longrightarrow> syncLine initialProgress h = (Some (PhaseChanged ''Finishing Up'' None), initialProgress)"
    by (simp add: syncLine_def)
  ultimately show ?thesis by blast
qed

text \<open>Ten progress lines of a sync, then the patch script and its hook.\<close>

theorem sync_dependencies_once_witness:
  "syncLines ([''Syncing projects:  10%'', ''Syncing projects:  20%'', ''Syncing projects:  30%'',
       ''Syncing projects:  40%'', ''Syncing projects:  50%'', ''Syncing projects:  60%'',
       ''Syncing projects:  70%'', ''Syncing projects:  80%'', ''Syncing projects:  90%'',
       ''Syncing projects: 100%'']
      @ [''running vpython3 src/electron/script/apply_all_patches.py in /home/dev/electron''])
     = ([PhaseChanged ''Dependencies'' None, PhaseChanged ''Applying Patches'' None], True)
   \<and> syncLine True ''Hook vpython3 src/electron/script/apply_all_patches.py took 31.42 secs''
     = (Some (PhaseChanged ''Finishing Up'' None), True)"
proof -
  let ?ls = "[''Syncing projects:  10%'', ''Syncing projects:  20%'', ''Syncing projects:  30%'',
       ''Syncing projects:  40%'', ''Syncing projects:  50%'', ''Syncing projects:  60%'',
       ''Syncing projects:  70%'', ''Syncing projects:  80%'', ''Syncing projects:  90%'',
       ''Syncing projects: 100%'']"
  let ?p = "''running vpython3 src/electron/script/apply_all_patches.py in /home/dev/electron''"
  let ?h = "''Hook vpython3 src/electron/script/apply_all_patches.py took 31.42 secs''"
  have len: "length ?ls = 10" by simp
  have un: "\<forall>l \<in> set ?ls. \<not> regexTest [''running'', ''apply_all_patches.py''] l
                      \<and> \<not> regexTest [''Hook'', ''apply_all_patches.py'', ''took''] l"
    by code_simp
  have p: "regexTest [''running'', ''apply_all_patches.py''] ?p" by code_simp
  have h: "\<not> regexTest [''running'', ''apply_all_patches.py''] ?h"
    "regexTest [''Hook'', ''apply_all_patches.py'', ''took''] ?h"
    by code_simp+
  from len un p h sync_dependencies_once [of ?ls ?p ?h True]
  show ?thesis by blast
qed

section \<open>Properties of settlement\<close>

lemma promise_resolve: "promise (resolve s) = (if promise s = Pending then Resolved else promise s)"
  by (simp add: resolve_def)

lemma promise_reject: "promise (reject r s) = (if promise s = Pending then Rejected r else promise s)"
  by (simp add: reject_def)

lemma promise_perform: "promise (perform es s) = promise s"
  by (simp add: perform_def)

lemma effects_resolve: "effects (resolve s) = effects s"
  by (simp add: resolve_def)

lemma effects_reject: "effects (reject r s) = effects s"
  by (simp add: reject_def)

lemma killed_resolve: "killed (resolve s) = killed s"
  by (simp add: resolve_def)

lemma finallyRuns_resolve: "finallyRuns (resolve s) = finallyRuns s"
  by (simp add: resolve_def)

lemma finallyRuns_reject: "finallyRuns (reject r s) = finallyRuns s"
  by (simp add: reject_def)

lemma finallyRuns_perform: "finallyRuns (perform es s) = finallyRuns s"
  by (simp add: perform_def)

lemma directStep_promise:
  "promise (directStep operationName command s ev) = (if promise s = Pending then Resolved else promise s)"
  by (cases ev) (simp_all add: promise_resolve promise_perform)

lemma directRun_settled:
  "promise s \<noteq> Pending \<Longrightarrow> promise (directRun operationName command s evs) = promise s"
  unfolding directRun_def
  by (induction evs arbitrary: s) (simp_all add: directStep_promise)

lemma directRun_start:
  "evs \<noteq> [] \<Longrightarrow> promise (directRun operationName command directStart evs) = Resolved"
proof (cases evs)
  case Nil
  assume "evs \<noteq> []"
  with Nil show ?thesis by simp
next
  case (Cons ev evs')
  have "promise (directStep operationName command directStart ev) = Resolved"
    by (simp add: directStep_promise directStart_def)
  then have "promise (directRun operationName command (directStep operationName command directStart ev) evs')
      = Resolved"
    by (simp add: directRun_settled)
  with Cons show ?thesis by (simp add: directRun_def)
qed

text \<open>
  Direct Pipe: once \<open>killed\<close> is set it stays set, an exit right after a cancellation
  shows no failure, whatever its code, and no event that follows a cancellation ever
  adds a failure message.
\<close>

lemma directStep_killed:
  "killed s \<Longrightarrow> killed (directStep operationName command s ev)"
  by (cases ev) (simp_all add: killed_resolve perform_def)

lemma direct_cancel_then_exit:
  "effects (directStep operationName command
      (directStep operationName command s CancellationRequested) (ChildExit exitCode))
   = effects (directStep operationName command s CancellationRequested)
   \<and> promise (directStep operationName command
      (directStep operationName command s CancellationRequested) (ChildExit exitCode)) \<noteq> Pending"
  by (simp add: killed_resolve effects_resolve promise_resolve perform_def)

lemma directStep_killed_effects:
  "killed s \<Longrightarrow>
   ShowFailedWithExitCode a n \<in> set (effects (directStep operationName command s ev)) \<Longrightarrow>
   ShowFailedWithExitCode a n \<in> set (effects s)"
  by (cases ev) (auto simp: effects_resolve perform_def)

lemma directRun_killed_effects:
  "killed s \<Longrightarrow>
   ShowFailedWithExitCode a n \<in> set (effects (directRun operationName command s evs)) \<Longrightarrow>
   ShowFailedWithExitCode a n \<in> set (effects s)"
  unfolding directRun_def
proof (induction evs arbitrary: s)
  case Nil
  then show ?case by simp
next
  case (Cons ev evs)
  from Cons.prems(1) have "killed (directStep operationName command s ev)"
    by (rule directStep_killed)
  from Cons.IH [OF this] Cons.prems(2)
  have "ShowFailedWithExitCode a n \<in> set (effects (directStep operationName command s ev))"
    by simp
  with Cons.prems(1) show ?case by (rule directStep_killed_effects)
qed

lemma relayHandler_promise:
  "promise (relayHandler te operationName command s ev)
     = (if promise s = Pending \<and> settles te ev
        then (if ev = SocketServerError then Rejected ''Socket server error'' else Resolved)
        else promise s)"
  by (cases ev) (auto simp: settles_def promise_resolve promise_reject promise_perform)

lemma relayHandler_finallyRuns:
  "finallyRuns (relayHandler te operationName command s ev) = finallyRuns s"
  by (cases ev) (simp_all add: finallyRuns_resolve finallyRuns_reject finallyRuns_perform)

lemma relayStep_promise:
  "promise (relayStep te operationName command s ev)
     = promise (relayHandler te operationName command s ev)"
  by (simp add: relayStep_def runFinally_def promise_perform)

lemma relayStep_finallyRuns:
  "finallyRuns (relayStep te operationName command s ev)
     = (if promise s = Pending \<and> settles te ev then finallyRuns s + 1 else finallyRuns s)"
  by (simp add: relayStep_def runFinally_def relayHandler_promise relayHandler_finallyRuns
      finallyRuns_perform del: relayHandler.simps)

lemma relayRun_settled:
  "promise s \<noteq> Pending \<Longrightarrow>
   promise (relayRun te operationName command s evs) = promise s
   \<and> finallyRuns (relayRun te operationName command s evs) = finallyRuns s"
  unfolding relayRun_def
proof (induction evs arbitrary: s)
  case Nil
  show ?case by simp
next
  case (Cons ev evs)
  let ?s = "relayStep te operationName command s ev"
  from Cons.prems have "promise ?s = promise s" "finallyRuns ?s = finallyRuns s"
    by (simp_all add: relayStep_promise relayHandler_promise relayStep_finallyRuns)
  with Cons.IH [of ?s] Cons.prems show ?case by simp
qed

lemma relayRun_pending:
  "promise s = Pending \<Longrightarrow>
   (promise (relayRun te operationName command s evs) \<noteq> Pending
      \<longleftrightarrow> (\<exists>ev \<in> set evs. settles te ev))
   \<and> finallyRuns (relayRun te operationName command s evs)
       = (if promise (relayRun te operationName command s evs) = Pending
          then finallyRuns s else finallyRuns s + 1)"
proof (induction evs arbitrary: s)
  case Nil
  then show ?case by (simp add: relayRun_def)
next
  case (Cons ev evs)
  let ?s = "relayStep te operationName command s ev"
  have run: "relayRun te operationName command s (ev # evs) = relayRun te operationName command ?s evs"
    by (simp add: relayRun_def)
  show ?case
  proof (cases "settles te ev")
    case True
    with Cons.prems have "promise ?s \<noteq> Pending" "finallyRuns ?s = finallyRuns s + 1"
      by (simp_all add: relayStep_promise relayHandler_promise relayStep_finallyRuns)
    with relayRun_settled [of ?s te operationName command evs] True show ?thesis
      unfolding run by auto
  next
    case False
    with Cons.prems have "promise ?s = Pending" "finallyRuns ?s = finallyRuns s"
      by (simp_all add: relayStep_promise relayHandler_promise relayStep_finallyRuns)
    with Cons.IH [of ?s] False show ?thesis
      unfolding run by auto
  qed
qed

text \<open>
  Claim C1 says that an exit code other than 0 seen after a cancellation shows no
  failure, in both variants.  The Direct Pipe callbacks do that through \<open>killed\<close>, see
  \<open>direct_cancel_then_exit\<close> and \<open>directRun_killed_effects\<close>.  The Socket Relay build
  has no such flag: after the
  cancellation, the end of the task's process with exit code 1 still shows the failure
  message.
\<close>

theorem relay_cancel_then_exit_shows_failure:
  "relayRun 1 ''Electron Build Tools - Building'' ''electron-build-tools build'' relayStart
     [TaskCancellationRequested, DidEndTaskProcess 1 (Some 1)]
   = \<lparr>promise = Resolved,
      effects = [TerminateTask, WarnUserCanceled ''electron-build-tools build'', TerminateTask,
                 ShowFailedWithExitCode ''Electron Build Tools - Building'' 1],
      finallyRuns = 1\<rparr>"
  by code_simp

text \<open>
  Callbacks that come after the promise is settled still run.  Direct Pipe: after an
  error has settled the promise, an exit with code 1 shows a second message.  Socket
  Relay: a cancellation calls \<open>terminate\<close> in its own callback and again in the
  \<open>finally\<close> clause.
\<close>

theorem late_signals_have_effects:
  "promise (directRun ''Electron Build Tools - Building'' ''electron-build-tools build'' directStart
      [ChildError ''spawn ENOENT'']) = Resolved
   \<and> effects (directRun ''Electron Build Tools - Building'' ''electron-build-tools build'' directStart
      [ChildError ''spawn ENOENT''])
     = [ShowErrorOccurred ''Electron Build Tools - Building'' ''spawn ENOENT'']
   \<and> effects (directRun ''Electron Build Tools - Building'' ''electron-build-tools build'' directStart
      [ChildError ''spawn ENOENT'', ChildExit (Some 1)])
     = [ShowErrorOccurred ''Electron Build Tools - Building'' ''spawn ENOENT'',
        ShowFailedWithExitCode ''Electron Build Tools - Building'' 1]
   \<and> effects (relayRun 1 ''Electron Build Tools - Building'' ''electron-build-tools build'' relayStart
      [TaskCancellationRequested])
     = [TerminateTask, WarnUserCanceled ''electron-build-tools build'', TerminateTask]"
  by code_simp

text \<open>
  Claim C2, as the code has it.  The promise is settled once and stays as it is: in the
  Direct Pipe variant every event settles it, so any events at all leave it resolved
  and no later event changes it; in the Socket Relay variant it is settled exactly when
  one of the settling events has come, no later event changes it, and the \<open>finally\<close>
  clause has run exactly once when it is settled and not at all before.
\<close>

theorem settlement_is_final:
  "(promise s \<noteq> Pending \<longrightarrow> promise (directRun operationName command s evs) = promise s)
   \<and> (evs \<noteq> [] \<longrightarrow> promise (directRun operationName command directStart evs) = Resolved)
   \<and> (promise r \<noteq> Pending \<longrightarrow>
        promise (relayRun taskExecution operationName command r tevs) = promise r
        \<and> finallyRuns (relayRun taskExecution operationName command r tevs) = finallyRuns r)
   \<and> (promise (relayRun taskExecution operationName command relayStart tevs) \<noteq> Pending
        \<longleftrightarrow> (\<exists>ev \<in> set tevs. settles taskExecution ev))
   \<and> finallyRuns (relayRun taskExecution operationName command relayStart tevs)
        = (if promise (relayRun taskExecution operationName command relayStart tevs) = Pending
           then 0 else 1)"
proof -
  have start: "promise relayStart = Pending" "finallyRuns relayStart = 0"
    by (simp_all add: relayStart_def)
  from relayRun_pending [OF start(1), of taskExecution operationName command tevs]
  have "promise (relayRun taskExecution operationName command relayStart tevs) \<noteq> Pending
        \<longleftrightarrow> (\<exists>ev \<in> set tevs. settles taskExecution ev)"
    and "finallyRuns (relayRun taskExecution operationName command relayStart tevs)
        = (if promise (relayRun taskExecution operationName command relayStart tevs) = Pending
           then 0 else 1)"
    by (auto simp: start(2))
  then show ?thesis
    using directRun_settled [of s operationName command evs]
      directRun_start [of evs operationName command]
      relayRun_settled [of r taskExecution operationName command tevs]
    by blast
qed

text \<open>
  An exit followed by a cancellation and an error; a cancellation followed by an exit;
  a socket error followed by the ends of the process and the task and a cancellation.
\<close>

theorem settlement_is_final_witness:
  "promise (directRun ''op'' ''cmd'' directStart [ChildExit (Some 0)]) = Resolved
   \<and> promise (directRun ''op'' ''cmd'' (directRun ''op'' ''cmd'' directStart [ChildExit (Some 0)])
        [CancellationRequested, ChildError ''late'']) = Resolved
   \<and> promise (directRun ''op'' ''cmd'' directStart [CancellationRequested, ChildExit (Some 1)]) = Resolved
   \<and> promise (relayRun 1 ''op'' ''cmd'' relayStart [SocketServerError]) = Rejected ''Socket server error''
   \<and> promise (relayRun 1 ''op'' ''cmd'' (relayRun 1 ''op'' ''cmd'' relayStart [SocketServerError])
        [DidEndTaskProcess 1 (Some 1), DidEndTask 1, TaskCancellationRequested])
       = Rejected ''Socket server error''
   \<and> finallyRuns (relayRun 1 ''op'' ''cmd'' (relayRun 1 ''op'' ''cmd'' relayStart [SocketServerError])
        [DidEndTaskProcess 1 (Some 1), DidEndTask 1, TaskCancellationRequested]) = 1
   \<and> promise (relayRun 1 ''op'' ''cmd'' relayStart [DidEndTaskProcess 1 (Some 1), DidEndTask 1]) \<noteq> Pending
   \<and> finallyRuns (relayRun 1 ''op'' ''cmd'' relayStart [DidEndTaskProcess 1 (Some 1), DidEndTask 1]) = 1"
proof -
  have a: "promise (directRun ''op'' ''cmd'' directStart [ChildExit (Some 0)]) = Resolved"
    by code_simp
  have b: "[CancellationRequested, ChildExit (Some 1)] \<noteq> []"
    by simp
  have c: "promise (relayRun 1 ''op'' ''cmd'' relayStart [SocketServerError]) = Rejected ''Socket server error''"
    "finallyRuns (relayRun 1 ''op'' ''cmd'' relayStart [SocketServerError]) = 1"
    by code_simp+
  have d: "\<exists>ev \<in> set [DidEndTaskProcess 1 (Some 1), DidEndTask 1]. settles 1 ev"
    by (simp add: settles_def)
  from a b c d
    settlement_is_final [of "directRun ''op'' ''cmd'' directStart [ChildExit (Some 0)]" "''op'' " "''cmd''"
      "[CancellationRequested, ChildError ''late'']"
      "relayRun 1 ''op'' ''cmd'' relayStart [SocketServerError]" 1
      "[DidEndTaskProcess 1 (Some 1), DidEndTask 1, TaskCancellationRequested]"]
    settlement_is_final [of directStart "''op''" "''cmd''" "[CancellationRequested, ChildExit (Some 1)]"
      relayStart 1 "[DidEndTaskProcess 1 (Some 1), DidEndTask 1]"]
  show ?thesis by (simp split: if_splits)
qed

section \<open>Properties of the build environment\<close>

text \<open>A \<open>NINJA_STATUS\<close> of the caller does not keep its value.\<close>

theorem build_env_overrides_ninja_status:
  "[''NINJA_STATUS'' \<mapsto> ''[%f/%t] ''] ''NINJA_STATUS'' = Some ''[%f/%t] ''
   \<and> buildEnv [''NINJA_STATUS'' \<mapsto> ''[%f/%t] ''] ''NINJA_STATUS'' = Some ''%p %f/%t ''
   \<and> buildEnv [''NINJA_STATUS'' \<mapsto> ''[%f/%t] ''] ''NINJA_STATUS''
       \<noteq> [''NINJA_STATUS'' \<mapsto> ''[%f/%t] ''] ''NINJA_STATUS''"
  by (simp add: buildEnv_def)

text \<open>
  Claim C8, as the code has it.  The environment of the build has every variable of the
  caller other than \<open>NINJA_STATUS\<close> with the caller's value, \<open>NINJA_STATUS\<close> set to
  \<open>%p %f/%t \<close>, and no other name: no variable of the caller is dropped.
\<close>

theorem build_env_frame:
  "(name \<noteq> ''NINJA_STATUS'' \<longrightarrow> buildEnv processEnv name = processEnv name)
   \<and> buildEnv processEnv ''NINJA_STATUS'' = Some ''%p %f/%t ''
   \<and> dom (buildEnv processEnv) = insert ''NINJA_STATUS'' (dom processEnv)"
  by (simp add: buildEnv_def)

text \<open>A caller with \<open>PATH\<close> and a \<open>NINJA_STATUS\<close> of its own.\<close>

theorem build_env_frame_witness:
  "buildEnv [''PATH'' \<mapsto> ''/usr/bin'', ''NINJA_STATUS'' \<mapsto> ''[%f/%t] ''] ''PATH'' = Some ''/usr/bin''
   \<and> buildEnv [''PATH'' \<mapsto> ''/usr/bin'', ''NINJA_STATUS'' \<mapsto> ''[%f/%t] ''] ''NINJA_STATUS''
       = Some ''%p %f/%t ''
   \<and> dom (buildEnv [''PATH'' \<mapsto> ''/usr/bin'', ''NINJA_STATUS'' \<mapsto> ''[%f/%t] ''])
       = {''PATH'', ''NINJA_STATUS''}"
proof -
  have a: "''PATH'' \<noteq> ''NINJA_STATUS''" by simp
  from a build_env_frame [of "''PATH''" "[''PATH'' \<mapsto> ''/usr/bin'', ''NINJA_STATUS'' \<mapsto> ''[%f/%t] '']"]
  show ?thesis by auto
qed

section \<open>Properties of the socket name\<close>


















end
